theory Spec2Isabelle
  imports Main
begin

chapter \<open>The model\<close>

section \<open>Form fields: the email field's validation constraints\<close>

text \<open>
  \<^verbatim>\<open>EmailField\<close> keeps three validation constraints. \<^verbatim>\<open>maxLength\<close> and
  \<^verbatim>\<open>minLength\<close> have the type \<^verbatim>\<open>number | null\<close>, \<^verbatim>\<open>pattern\<close> has the type
  \<^verbatim>\<open>string | null\<close>; \<^verbatim>\<open>null\<close> is \<open>None\<close>. Only the presence of a number is
  ever tested, so the numbers are integers here.
\<close>

record EmailField =
  multiple :: bool
  pattern :: "string option"
  maxLength :: "int option"
  minLength :: "int option"

text \<open>The field initialisers of the class: \<^verbatim>\<open>multiple = false\<close>, the other three \<^verbatim>\<open>null\<close>.\<close>

definition EmailField_new :: EmailField where
  "EmailField_new = \<lparr>multiple = False, pattern = None, maxLength = None, minLength = None\<rparr>"

text \<open>
  \<^verbatim>\<open>shouldValidate\<close>: \<^verbatim>\<open>this.pattern !== ''\<close> is strict inequality with the empty
  string, so \<^verbatim>\<open>null\<close> counts as a pattern.
\<close>

definition shouldValidate :: "EmailField \<Rightarrow> bool" where
  "shouldValidate f =
     (let hasMaxLength = (maxLength f \<noteq> None);
          hasMinLength = (minLength f \<noteq> None);
          hasPattern = (pattern f \<noteq> Some '''')
      in hasMaxLength \<or> hasMinLength \<or> hasPattern)"

section \<open>Loaders: deferred prefix, icon loader, response cache\<close>

subsection \<open>Deferred\<close>

text \<open>
  \<^verbatim>\<open>deferred.js\<close> is not among the sources, and the spec leaves the loaders out of
  scope. Both loaders use a \<^verbatim>\<open>Deferred<string>\<close> through \<^verbatim>\<open>resolve\<close>, \<^verbatim>\<open>reject\<close>,
  \<^verbatim>\<open>promise\<close>, \<^verbatim>\<open>isResolved()\<close> and \<^verbatim>\<open>isPending()\<close>, and document it as a
  deferred promise that those calls resolve or reject: a promise whose settling
  functions are exposed. A JavaScript promise settles once, so settling a settled one
  changes nothing.
\<close>

datatype 'a Deferred = Pending | Resolved 'a | Rejected string

definition resolve :: "'a \<Rightarrow> 'a Deferred \<Rightarrow> 'a Deferred" where
  "resolve v d = (case d of Pending \<Rightarrow> Resolved v | _ \<Rightarrow> d)"

definition reject :: "string \<Rightarrow> 'a Deferred \<Rightarrow> 'a Deferred" where
  "reject e d = (case d of Pending \<Rightarrow> Rejected e | _ \<Rightarrow> d)"

definition isResolved :: "'a Deferred \<Rightarrow> bool" where
  "isResolved d = (case d of Resolved _ \<Rightarrow> True | _ \<Rightarrow> False)"

definition isPending :: "'a Deferred \<Rightarrow> bool" where
  "isPending d = (d = Pending)"

subsection \<open>CDNLoader: the state of one loader\<close>

text \<open>
  Promise objects live in a heap, a list indexed by their reference; a new promise takes
  the next index. \<^verbatim>\<open>responseCache\<close> is the \<^verbatim>\<open>Map<string, Promise<Response>>\<close> of the
  class, from a source string to the reference of the cached promise.
\<close>

type_synonym promise_ref = nat

record Response =
  status :: int
  statusText :: string

record CDNLoader =
  responseCache :: "string \<rightharpoonup> promise_ref"
  cdnPrefix :: "string Deferred"

definition CDNLoader_new :: CDNLoader where
  "CDNLoader_new = \<lparr>responseCache = Map.empty, cdnPrefix = Pending\<rparr>"

definition isPrefixResolved :: "'a CDNLoader_scheme \<Rightarrow> bool" where
  "isPrefixResolved l = isResolved (cdnPrefix l)"

definition isPrefixPending :: "'a CDNLoader_scheme \<Rightarrow> bool" where
  "isPrefixPending l = isPending (cdnPrefix l)"

text \<open>\<^verbatim>\<open>CDNLoader.setCdnPrefix\<close>: a falsy (empty) prefix rejects the deferred.\<close>

definition CDNLoader_setCdnPrefix :: "string \<Rightarrow> CDNLoader \<Rightarrow> CDNLoader" where
  "CDNLoader_setCdnPrefix prefix l =
     (if prefix \<noteq> [] then l\<lparr>cdnPrefix := resolve prefix (cdnPrefix l)\<rparr>
      else l\<lparr>cdnPrefix := reject [] (cdnPrefix l)\<rparr>)"

subsection \<open>IconLoader\<close>

text \<open>
  \<^verbatim>\<open>IconLoader extends CdnLoader\<close>. Its own field initialiser \<^verbatim>\<open>cdnPrefix = new Deferred()\<close>
  writes the instance property of that name, so the instance has one \<^verbatim>\<open>cdnPrefix\<close>;
  \<^verbatim>\<open>_isPrefixSet\<close> is the field added. \<^verbatim>\<open>getCdnPrefix\<close> and \<^verbatim>\<open>setCdnPrefix\<close> are the
  subclass's own methods.
\<close>

record IconLoader = CDNLoader +
  isPrefixSet_field :: bool

definition IconLoader_new :: IconLoader where
  "IconLoader_new = \<lparr>responseCache = Map.empty, cdnPrefix = Pending, isPrefixSet_field = False\<rparr>"

definition isPrefixSet :: "IconLoader \<Rightarrow> bool" where
  "isPrefixSet l = isPrefixSet_field l"

definition set_isPrefixSet :: "bool \<Rightarrow> IconLoader \<Rightarrow> IconLoader" where
  "set_isPrefixSet v l = (if isPrefixSet_field l \<noteq> v then l\<lparr>isPrefixSet_field := v\<rparr> else l)"

text \<open>\<^verbatim>\<open>getCdnPrefix\<close> returns the deferred's promise; its state is the deferred's state.\<close>

definition getCdnPrefix :: "IconLoader \<Rightarrow> string Deferred" where
  "getCdnPrefix l = cdnPrefix l"

definition setCdnPrefix :: "string \<Rightarrow> IconLoader \<Rightarrow> IconLoader" where
  "setCdnPrefix prefix l =
     (if prefix \<noteq> [] then set_isPrefixSet True (l\<lparr>cdnPrefix := resolve prefix (cdnPrefix l)\<rparr>)
      else l)"

text \<open>
  \<^verbatim>\<open>getSrc\<close> is \<^verbatim>\<open>async\<close>: for a non-empty icon name it awaits the prefix promise. The
  state of the promise it returns, in a given state of the loader: still waiting,
  fulfilled with the complete source, or rejected with the prefix promise's reason.
\<close>

datatype 'a outcome = Waiting | Done 'a | Failed string

definition getSrc :: "IconLoader \<Rightarrow> string \<Rightarrow> string outcome" where
  "getSrc l iconName =
     (if iconName \<noteq> [] then
        (case getCdnPrefix l of
           Pending \<Rightarrow> Waiting
         | Resolved prefix \<Rightarrow> Done (prefix @ iconName @ ''.svg'')
         | Rejected e \<Rightarrow> Failed e)
      else Done [])"

text \<open>A run of \<^verbatim>\<open>setCdnPrefix\<close> calls, in order, on one loader.\<close>

definition setCdnPrefix_calls :: "string list \<Rightarrow> IconLoader \<Rightarrow> IconLoader" where
  "setCdnPrefix_calls ps l = fold setCdnPrefix ps l"

subsection \<open>CDNLoader: loading through the cache\<close>

text \<open>
  What \<^verbatim>\<open>catch (e)\<close> can receive: an \<^verbatim>\<open>Error\<close> with its message, a \<^verbatim>\<open>Response\<close>, or
  any other value.
\<close>

datatype thrown = ThrownError string | ThrownResponse Response | ThrownOther

fun errorMessage :: "thrown \<Rightarrow> string" where
  "errorMessage (ThrownError m) = m"
| "errorMessage (ThrownResponse r) = statusText r"
| "errorMessage ThrownOther = []"

text \<open>
  The promise objects the loader creates. \<^verbatim>\<open>loadContent(href)\<close> is \<^verbatim>\<open>async\<close>: its
  promise is pending while the function is suspended at \<^verbatim>\<open>await fetch(href, ...)\<close> and is
  fulfilled with the value it returns (it catches every failure, so it never rejects).
  \<^verbatim>\<open>load(src)\<close> is \<^verbatim>\<open>async\<close> too and never awaits: each call creates a promise of its
  own, resolved with the value of the \<^verbatim>\<open>return\<close> statement, which is \<^verbatim>\<open>undefined\<close>
  (\<open>None\<close>) or the cached promise, whose outcome it then takes.
\<close>

datatype promise =
    ContentPending string
  | ContentDone Response
  | AsyncResult "promise_ref option"

record runtime =
  loader :: CDNLoader
  promises :: "promise list"
  fetches :: "string list"

definition runtime_new :: runtime where
  "runtime_new = \<lparr>loader = CDNLoader_new, promises = [], fetches = []\<rparr>"

text \<open>
  \<^verbatim>\<open>loadContent\<close> up to its first \<^verbatim>\<open>await\<close>: the call to \<^verbatim>\<open>fetch(href)\<close> is made (and
  logged in \<open>fetches\<close>), and the pending promise is returned to the caller.
\<close>

definition loadContent :: "string \<Rightarrow> runtime \<Rightarrow> promise_ref \<times> runtime" where
  "loadContent href w =
     (length (promises w),
      w\<lparr>promises := promises w @ [ContentPending href], fetches := fetches w @ [href]\<rparr>)"

text \<open>The promise that a call of an \<^verbatim>\<open>async\<close> function returns for its returned value.\<close>

definition async_return :: "promise_ref option \<Rightarrow> runtime \<Rightarrow> promise_ref \<times> runtime" where
  "async_return v w = (length (promises w), w\<lparr>promises := promises w @ [AsyncResult v]\<rparr>)"

definition load :: "string \<Rightarrow> runtime \<Rightarrow> promise_ref \<times> runtime" where
  "load src w =
     (if src \<noteq> [] then
        (let w1 = (if responseCache (loader w) src = None then
                     (let (p, w') = loadContent src w
                      in w'\<lparr>loader := (loader w')\<lparr>responseCache := (responseCache (loader w'))(src \<mapsto> p)\<rparr>\<rparr>)
                   else w)
         in async_return (responseCache (loader w1) src) w1)
      else async_return None w)"

text \<open>
  The rest of \<^verbatim>\<open>loadContent\<close>, run when the awaited fetch settles. If the fetch is
  fulfilled the response is returned. If it throws (a network failure, or the abort that
  the five minute timer triggers), the \<^verbatim>\<open>catch\<close> block deletes the cache entry of
  \<^verbatim>\<open>href\<close> and returns a response with status 0.
\<close>

definition fetch_fulfilled :: "promise_ref \<Rightarrow> Response \<Rightarrow> runtime \<Rightarrow> runtime" where
  "fetch_fulfilled p r w =
     (if p < length (promises w) then
        (case promises w ! p of
           ContentPending href \<Rightarrow> w\<lparr>promises := (promises w)[p := ContentDone r]\<rparr>
         | _ \<Rightarrow> w)
      else w)"

definition fetch_thrown :: "promise_ref \<Rightarrow> thrown \<Rightarrow> runtime \<Rightarrow> runtime" where
  "fetch_thrown p e w =
     (if p < length (promises w) then
        (case promises w ! p of
           ContentPending href \<Rightarrow>
             w\<lparr>loader := (loader w)\<lparr>responseCache := (responseCache (loader w))(href := None)\<rparr>,
               promises := (promises w)[p := ContentDone \<lparr>status = 0, statusText = errorMessage e\<rparr>]\<rparr>
         | _ \<Rightarrow> w)
      else w)"

text \<open>What can happen to a loader, one event at a time, and a run of events.\<close>

datatype event = Load string | FetchFulfilled promise_ref Response | FetchThrown promise_ref thrown

fun step :: "event \<Rightarrow> runtime \<Rightarrow> runtime" where
  "step (Load src) w = snd (load src w)"
| "step (FetchFulfilled p r) w = fetch_fulfilled p r w"
| "step (FetchThrown p e) w = fetch_thrown p e w"

definition run :: "event list \<Rightarrow> runtime \<Rightarrow> runtime" where
  "run es w = fold step es w"

fun is_throw_of :: "promise_ref \<Rightarrow> event \<Rightarrow> bool" where
  "is_throw_of p (FetchThrown q e) = (q = p)"
| "is_throw_of p _ = False"

text \<open>
  The invariant of the cache: a \<^verbatim>\<open>loadContent(href)\<close> that is still suspended at its
  fetch is the promise cached for \<^verbatim>\<open>href\<close>.
\<close>

definition cache_inv :: "runtime \<Rightarrow> bool" where
  "cache_inv w =
     (\<forall>p href. p < length (promises w) \<and> promises w ! p = ContentPending href
        \<longrightarrow> responseCache (loader w) href = Some p)"


section \<open>Tree: raw items, composer, manager and node handles\<close>

subsection \<open>Property values of raw items\<close>

text \<open>
  A raw item is a JavaScript object read and written by property name. The values its
  documented fields take: \<^verbatim>\<open>undefined\<close>, \<^verbatim>\<open>null\<close>, booleans, numbers and strings.
  Numbers are integers here (a timestamp or a count; \<^verbatim>\<open>NaN\<close> and fractions do not
  occur in these fields). \<open>truthy\<close> is the coercion \<^verbatim>\<open>!!v\<close>.
\<close>

datatype jsval = JUndefined | JNull | JBool bool | JNum int | JStr string

fun truthy :: "jsval \<Rightarrow> bool" where
  "truthy JUndefined = False"
| "truthy JNull = False"
| "truthy (JBool b) = b"
| "truthy (JNum n) = (n \<noteq> 0)"
| "truthy (JStr s) = (s \<noteq> [])"

subsection \<open>The logical tree\<close>

text \<open>
  Modelled from the spec: the composer is not among the sources. The spec (3, 4.1) has it
  normalise either encoding into one logical tree, a forest in which each raw item has an
  ordered sequence of children. A raw item is named by its object identity, a reference;
  \<^verbatim>\<open>item.value\<close> is an ordinary property, which a handle may overwrite.
\<close>

type_synonym item_ref = nat

datatype tree = Node (ref: item_ref) (kids: "tree list")

fun items_of :: "tree \<Rightarrow> item_ref list"
  and forest_items :: "tree list \<Rightarrow> item_ref list" where
  "items_of (Node r ts) = r # forest_items ts"
| "forest_items [] = []"
| "forest_items (t # ts) = items_of t @ forest_items ts"

fun find_tree :: "item_ref \<Rightarrow> tree \<Rightarrow> tree option"
  and find_forest :: "item_ref \<Rightarrow> tree list \<Rightarrow> tree option" where
  "find_tree x (Node r ts) = (if r = x then Some (Node r ts) else find_forest x ts)"
| "find_forest x [] = None"
| "find_forest x (t # ts) =
     (case find_tree x t of Some n \<Rightarrow> Some n | None \<Rightarrow> find_forest x ts)"

text \<open>The proper ancestors of an item, nearest first: parent, grandparent, up to the root.\<close>

fun ancestors_tree :: "item_ref \<Rightarrow> tree \<Rightarrow> item_ref list option"
  and ancestors_forest :: "item_ref \<Rightarrow> tree list \<Rightarrow> item_ref list option" where
  "ancestors_tree x (Node r ts) =
     (if r = x then Some []
      else (case ancestors_forest x ts of Some p \<Rightarrow> Some (p @ [r]) | None \<Rightarrow> None))"
| "ancestors_forest x [] = None"
| "ancestors_forest x (t # ts) =
     (case ancestors_tree x t of Some p \<Rightarrow> Some p | None \<Rightarrow> ancestors_forest x ts)"

text \<open>The items of a forest down to a depth, in pre-order: depth 1 is the roots alone.\<close>

fun items_upto :: "nat \<Rightarrow> tree list \<Rightarrow> item_ref list" where
  "items_upto 0 ts = []"
| "items_upto (Suc d) ts = concat (map (\<lambda>t. ref t # items_upto d (kids t)) ts)"


definition children_in :: "tree list \<Rightarrow> item_ref \<Rightarrow> item_ref list" where
  "children_in f x = (case find_forest x f of None \<Rightarrow> [] | Some n \<Rightarrow> map ref (kids n))"

definition ancestors_in :: "tree list \<Rightarrow> item_ref \<Rightarrow> item_ref list" where
  "ancestors_in f x = (case ancestors_forest x f of None \<Rightarrow> [] | Some p \<Rightarrow> p)"

definition descendants_in :: "tree list \<Rightarrow> item_ref \<Rightarrow> nat option \<Rightarrow> item_ref list" where
  "descendants_in f x depth =
     (case find_forest x f of
        None \<Rightarrow> []
      | Some n \<Rightarrow> (case depth of None \<Rightarrow> forest_items (kids n) | Some d \<Rightarrow> items_upto d (kids n)))"

subsection \<open>Composer\<close>

text \<open>
  Modelled from the spec: the composer (4.1). \<^verbatim>\<open>getItemPropertyValue\<close> reads a named
  field of the raw item and returns \<^verbatim>\<open>undefined\<close> for a field that is not there;
  \<^verbatim>\<open>setItemPropertyValue\<close> writes the field and does nothing else; parent, children,
  ancestors (nearest first) and descendants (pre-order, optionally bounded in depth) are
  read off the logical tree, and the depth of an item is the number of its ancestors.
  An item outside the tree has no parent, children, ancestors or descendants.
\<close>

record Composer =
  forest :: "tree list"
  props :: "item_ref \<Rightarrow> string \<rightharpoonup> jsval"

definition getItemPropertyValue :: "Composer \<Rightarrow> item_ref \<Rightarrow> string \<Rightarrow> jsval" where
  "getItemPropertyValue c item key = (case props c item key of None \<Rightarrow> JUndefined | Some v \<Rightarrow> v)"

definition setItemPropertyValue :: "Composer \<Rightarrow> item_ref \<Rightarrow> string \<Rightarrow> jsval \<Rightarrow> Composer" where
  "setItemPropertyValue c item key v = c\<lparr>props := (props c)(item := (props c item)(key \<mapsto> v))\<rparr>"

definition getItemChildren :: "Composer \<Rightarrow> item_ref \<Rightarrow> item_ref list" where
  "getItemChildren c item = children_in (forest c) item"

definition getItemAncestors :: "Composer \<Rightarrow> item_ref \<Rightarrow> item_ref list" where
  "getItemAncestors c item = ancestors_in (forest c) item"

definition getItemDescendants :: "Composer \<Rightarrow> item_ref \<Rightarrow> nat option \<Rightarrow> item_ref list" where
  "getItemDescendants c item depth = descendants_in (forest c) item depth"

definition getItemParent :: "Composer \<Rightarrow> item_ref \<Rightarrow> item_ref option" where
  "getItemParent c item = (case getItemAncestors c item of [] \<Rightarrow> None | a # _ \<Rightarrow> Some a)"

definition getItemDepth :: "Composer \<Rightarrow> item_ref \<Rightarrow> nat" where
  "getItemDepth c item = length (getItemAncestors c item)"

definition isItemInTree :: "Composer \<Rightarrow> item_ref \<Rightarrow> bool" where
  "isItemInTree c item = (item \<in> set (forest_items (forest c)))"

text \<open>
  A well-formed logical tree (spec 3 and 7): no raw item occurs twice, so the forest is
  acyclic and every item has at most one parent.
\<close>

definition wellformed :: "Composer \<Rightarrow> bool" where
  "wellformed c = distinct (forest_items (forest c))"

subsection \<open>Tree manager\<close>

text \<open>
  Modelled from the spec: the tree manager (\<^verbatim>\<open>tree-manager.js\<close>) is not among the
  sources; only the types \<^verbatim>\<open>CheckedState\<close> and \<^verbatim>\<open>TreeManager\<close> are imported from it.
  \<^verbatim>\<open>CheckedState\<close> is CHECKED (1), UNCHECKED (0) or INDETERMINATE (-1).
\<close>

datatype CheckedState = CHECKED | UNCHECKED | INDETERMINATE

text \<open>
  A node handle is an object holding its item (and its manager, which is the state passed
  to every operation below); \<open>handle\<close> is the identity of the handle object.
\<close>

record TreeNode =
  handle :: nat
  item :: item_ref

text \<open>
  Modelled from the spec: the state the manager owns (2, 3): the composer, the mode, the
  selection and expansion state maps, the map from item to cached handle (with the
  counter that names new handle objects), the selection timestamp counter, and the items
  marked dirty for the renderer.
\<close>

record TreeManager =
  composer :: Composer
  relationship :: bool
  checkedStates :: "item_ref \<Rightarrow> CheckedState"
  expandedStates :: "item_ref \<Rightarrow> bool"
  treeNodes :: "item_ref \<rightharpoonup> TreeNode"
  nextHandle :: nat
  selectionClock :: nat
  dirty :: "item_ref set"

text \<open>
  Modelled from the spec: the rule for an ancestor (4.2): CHECKED iff all of its children
  are CHECKED, UNCHECKED iff all of its children are UNCHECKED, otherwise INDETERMINATE.
\<close>

definition aggregate :: "CheckedState list \<Rightarrow> CheckedState" where
  "aggregate cs =
     (if list_all (\<lambda>c. c = CHECKED) cs then CHECKED
      else if list_all (\<lambda>c. c = UNCHECKED) cs then UNCHECKED
      else INDETERMINATE)"

definition recompute ::
  "tree list \<Rightarrow> item_ref \<Rightarrow> (item_ref \<Rightarrow> CheckedState) \<Rightarrow> (item_ref \<Rightarrow> CheckedState)" where
  "recompute f a st = st(a := aggregate (map st (children_in f a)))"

text \<open>
  Modelled from the spec: propagation in relationship mode (4.2): the item takes the new
  state, all of its descendants are forced to it, then every ancestor is recomputed from
  its children, bottom-up (nearest ancestor first).
\<close>

definition propagate ::
  "tree list \<Rightarrow> item_ref \<Rightarrow> CheckedState \<Rightarrow> (item_ref \<Rightarrow> CheckedState) \<Rightarrow> (item_ref \<Rightarrow> CheckedState)" where
  "propagate f x v st =
     fold (recompute f) (ancestors_in f x)
       (fold (\<lambda>d s. s(d := v)) (descendants_in f x None) (st(x := v)))"

text \<open>
  Modelled from the spec: the selection timestamp (3, 4.2, 4.3). It is the
  \<^verbatim>\<open>selectedAt\<close> field that the handle reads through the composer. The item targeted by
  \<^verbatim>\<open>checkItem\<close> is stamped with the counter when it becomes CHECKED (descendants forced
  by the cascade are not stamped), and the field is unset on every item that changes to
  UNCHECKED or INDETERMINATE.
\<close>

definition clearStamps ::
  "(item_ref \<Rightarrow> CheckedState) \<Rightarrow> (item_ref \<Rightarrow> CheckedState) \<Rightarrow> Composer \<Rightarrow> Composer" where
  "clearStamps old new c =
     fold (\<lambda>y c'. if new y \<noteq> CHECKED \<and> old y \<noteq> new y
                   then setItemPropertyValue c' y ''selectedAt'' JUndefined else c')
       (forest_items (forest c)) c"

text \<open>
  Modelled from the spec: \<^verbatim>\<open>checkItem\<close> and \<^verbatim>\<open>uncheckItem\<close> (4.2). Outside relationship
  mode only the targeted item changes. Neither consults \<^verbatim>\<open>isItemCheckable\<close>. An item
  that is not in the managed tree is left alone (the no-op of 7). The items whose state was
  written are marked dirty.
\<close>

definition setItemChecked :: "CheckedState \<Rightarrow> TreeManager \<Rightarrow> item_ref \<Rightarrow> TreeManager" where
  "setItemChecked v m x =
     (if isItemInTree (composer m) x then
        (let c = composer m;
             old = checkedStates m;
             new = (if relationship m then propagate (forest c) x v old else old(x := v));
             stamped = (v = CHECKED \<and> old x \<noteq> CHECKED);
             c1 = (if stamped
                   then setItemPropertyValue c x ''selectedAt'' (JNum (int (selectionClock m)))
                   else c);
             affected = (if relationship m
                         then set (x # getItemDescendants c x None @ getItemAncestors c x)
                         else {x})
         in m\<lparr>composer := clearStamps old new c1,
              checkedStates := new,
              selectionClock := (if stamped then selectionClock m + 1 else selectionClock m),
              dirty := dirty m \<union> affected\<rparr>)
      else m)"

definition checkItem :: "TreeManager \<Rightarrow> item_ref \<Rightarrow> TreeManager" where
  "checkItem m x = setItemChecked CHECKED m x"

definition uncheckItem :: "TreeManager \<Rightarrow> item_ref \<Rightarrow> TreeManager" where
  "uncheckItem m x = setItemChecked UNCHECKED m x"

text \<open>Modelled from the spec: a pure read of the stored state (4.2).\<close>

definition getItemCheckedState :: "TreeManager \<Rightarrow> item_ref \<Rightarrow> CheckedState" where
  "getItemCheckedState m x = checkedStates m x"

text \<open>Modelled from the spec: false iff the item is disabled or readonly (4.2).\<close>

definition isItemCheckable :: "TreeManager \<Rightarrow> item_ref \<Rightarrow> bool" where
  "isItemCheckable m x =
     (\<not> (truthy (getItemPropertyValue (composer m) x ''disabled'')
         \<or> truthy (getItemPropertyValue (composer m) x ''readonly'')))"

text \<open>Modelled from the spec: expansion is one boolean flag per item (4.2).\<close>

definition isItemExpanded :: "TreeManager \<Rightarrow> item_ref \<Rightarrow> bool" where
  "isItemExpanded m x = expandedStates m x"

definition setItemExpanded :: "bool \<Rightarrow> TreeManager \<Rightarrow> item_ref \<Rightarrow> TreeManager" where
  "setItemExpanded v m x =
     (if isItemInTree (composer m) x
      then m\<lparr>expandedStates := (expandedStates m)(x := v), dirty := insert x (dirty m)\<rparr>
      else m)"

definition expandItem :: "TreeManager \<Rightarrow> item_ref \<Rightarrow> TreeManager" where
  "expandItem m x = setItemExpanded True m x"

definition collapseItem :: "TreeManager \<Rightarrow> item_ref \<Rightarrow> TreeManager" where
  "collapseItem m x = setItemExpanded False m x"

text \<open>
  Modelled from the spec: the structural queries of the manager pass through to the
  composer (4.2). The handle wraps each result with \<^verbatim>\<open>getTreeNode\<close> itself, so they
  return raw items here.
\<close>

definition isItemParent :: "TreeManager \<Rightarrow> item_ref \<Rightarrow> bool" where
  "isItemParent m x = (getItemChildren (composer m) x \<noteq> [])"

definition isItemChild :: "TreeManager \<Rightarrow> item_ref \<Rightarrow> bool" where
  "isItemChild m x = (getItemParent (composer m) x \<noteq> None)"

text \<open>Modelled from the spec: pure notification, no state change (4.2).\<close>

definition updateItem :: "TreeManager \<Rightarrow> item_ref \<Rightarrow> TreeManager" where
  "updateItem m x = m\<lparr>dirty := insert x (dirty m)\<rparr>"

text \<open>
  Modelled from the spec: \<^verbatim>\<open>getTreeNode\<close> (4.2) returns the cached handle of an item and
  creates it on first use. The handle's casts and \<^verbatim>\<open>TreeNode | null\<close> result types show
  that it may return \<^verbatim>\<open>null\<close>: that is the answer for an item outside the tree.
\<close>

definition getTreeNode :: "TreeManager \<Rightarrow> item_ref \<Rightarrow> TreeNode option \<times> TreeManager" where
  "getTreeNode m x =
     (if isItemInTree (composer m) x then
        (case treeNodes m x of
           Some n \<Rightarrow> (Some n, m)
         | None \<Rightarrow>
             (let n = \<lparr>handle = nextHandle m, item = x\<rparr>
              in (Some n, m\<lparr>treeNodes := (treeNodes m)(x \<mapsto> n), nextHandle := nextHandle m + 1\<rparr>)))
      else (None, m))"

text \<open>What a caller can do to a manager, one call at a time.\<close>

datatype manager_call =
    CheckItem item_ref
  | UncheckItem item_ref
  | ExpandItem item_ref
  | CollapseItem item_ref
  | UpdateItem item_ref
  | GetTreeNode item_ref

fun call :: "manager_call \<Rightarrow> TreeManager \<Rightarrow> TreeManager" where
  "call (CheckItem x) m = checkItem m x"
| "call (UncheckItem x) m = uncheckItem m x"
| "call (ExpandItem x) m = expandItem m x"
| "call (CollapseItem x) m = collapseItem m x"
| "call (UpdateItem x) m = updateItem m x"
| "call (GetTreeNode x) m = snd (getTreeNode m x)"





subsection \<open>Tree node: the handle of \<^verbatim>\<open>tree-node.ts\<close>\<close>

text \<open>
  Every accessor of \<^verbatim>\<open>TreeNode\<close> goes to \<^verbatim>\<open>this.manager\<close> or to
  \<^verbatim>\<open>this.manager.composer\<close> with \<^verbatim>\<open>this.item\<close>. The manager is mutable and shared, so
  each function takes its current state, and a setter returns the new one. A getter and
  the setter of one property share a name in the source; here they are \<open>get_\<close> and
  \<open>set_\<close>.
\<close>

definition getPropertyValue :: "TreeNode \<Rightarrow> TreeManager \<Rightarrow> string \<Rightarrow> jsval" where
  "getPropertyValue n m prop = getItemPropertyValue (composer m) (item n) prop"

definition setProperty :: "TreeNode \<Rightarrow> string \<Rightarrow> jsval \<Rightarrow> TreeManager \<Rightarrow> TreeManager" where
  "setProperty n prop v m = m\<lparr>composer := setItemPropertyValue (composer m) (item n) prop v\<rparr>"

definition get_icon :: "TreeNode \<Rightarrow> TreeManager \<Rightarrow> jsval" where
  "get_icon n m = getPropertyValue n m ''icon''"

text \<open>The setter takes \<^verbatim>\<open>string | undefined\<close>; \<open>None\<close> is \<^verbatim>\<open>undefined\<close>.\<close>

definition set_icon :: "TreeNode \<Rightarrow> string option \<Rightarrow> TreeManager \<Rightarrow> TreeManager" where
  "set_icon n icon m = setProperty n ''icon'' (case icon of None \<Rightarrow> JUndefined | Some s \<Rightarrow> JStr s) m"

definition get_label :: "TreeNode \<Rightarrow> TreeManager \<Rightarrow> jsval" where
  "get_label n m = getPropertyValue n m ''label''"

definition set_label :: "TreeNode \<Rightarrow> string \<Rightarrow> TreeManager \<Rightarrow> TreeManager" where
  "set_label n v m = setProperty n ''label'' (JStr v) m"

definition get_value :: "TreeNode \<Rightarrow> TreeManager \<Rightarrow> jsval" where
  "get_value n m = getPropertyValue n m ''value''"

definition set_value :: "TreeNode \<Rightarrow> string \<Rightarrow> TreeManager \<Rightarrow> TreeManager" where
  "set_value n v m = setProperty n ''value'' (JStr v) m"

definition get_readonly :: "TreeNode \<Rightarrow> TreeManager \<Rightarrow> bool" where
  "get_readonly n m = truthy (getPropertyValue n m ''readonly'')"

definition set_readonly :: "TreeNode \<Rightarrow> bool \<Rightarrow> TreeManager \<Rightarrow> TreeManager" where
  "set_readonly n v m = setProperty n ''readonly'' (JBool v) m"

definition get_highlighted :: "TreeNode \<Rightarrow> TreeManager \<Rightarrow> bool" where
  "get_highlighted n m = truthy (getPropertyValue n m ''highlighted'')"

definition set_highlighted :: "TreeNode \<Rightarrow> bool \<Rightarrow> TreeManager \<Rightarrow> TreeManager" where
  "set_highlighted n v m = setProperty n ''highlighted'' (JBool v) m"

definition get_disabled :: "TreeNode \<Rightarrow> TreeManager \<Rightarrow> bool" where
  "get_disabled n m = truthy (getPropertyValue n m ''disabled'')"

definition set_disabled :: "TreeNode \<Rightarrow> bool \<Rightarrow> TreeManager \<Rightarrow> TreeManager" where
  "set_disabled n v m = setProperty n ''disabled'' (JBool v) m"

definition get_hidden :: "TreeNode \<Rightarrow> TreeManager \<Rightarrow> bool" where
  "get_hidden n m = truthy (getPropertyValue n m ''hidden'')"

definition get_expanded :: "TreeNode \<Rightarrow> TreeManager \<Rightarrow> bool" where
  "get_expanded n m = isItemExpanded m (item n)"

definition set_expanded :: "TreeNode \<Rightarrow> bool \<Rightarrow> TreeManager \<Rightarrow> TreeManager" where
  "set_expanded n v m = (if v then expandItem m (item n) else collapseItem m (item n))"

definition get_selectedAt :: "TreeNode \<Rightarrow> TreeManager \<Rightarrow> jsval" where
  "get_selectedAt n m = getPropertyValue n m ''selectedAt''"

definition get_selected :: "TreeNode \<Rightarrow> TreeManager \<Rightarrow> bool" where
  "get_selected n m =
     (let checkedState = getItemCheckedState m (item n) in checkedState = CHECKED)"

definition set_selected :: "TreeNode \<Rightarrow> bool \<Rightarrow> TreeManager \<Rightarrow> TreeManager" where
  "set_selected n v m = (if v then checkItem m (item n) else uncheckItem m (item n))"

definition getCheckedState :: "TreeNode \<Rightarrow> TreeManager \<Rightarrow> CheckedState" where
  "getCheckedState n m = getItemCheckedState m (item n)"

text \<open>
  \<^verbatim>\<open>items.map((i) => this.manager.getTreeNode(i))\<close>: the handles of a list of items, in
  order, each call working on the manager the previous one left.
\<close>

fun getTreeNodes :: "item_ref list \<Rightarrow> TreeManager \<Rightarrow> TreeNode option list \<times> TreeManager" where
  "getTreeNodes [] m = ([], m)"
| "getTreeNodes (x # xs) m =
     (let (n, m1) = getTreeNode m x; (ns, m2) = getTreeNodes xs m1 in (n # ns, m2))"

definition getAncestors :: "TreeNode \<Rightarrow> TreeManager \<Rightarrow> TreeNode option list \<times> TreeManager" where
  "getAncestors n m = getTreeNodes (getItemAncestors (composer m) (item n)) m"

definition getChildren :: "TreeNode \<Rightarrow> TreeManager \<Rightarrow> TreeNode option list \<times> TreeManager" where
  "getChildren n m = getTreeNodes (getItemChildren (composer m) (item n)) m"

definition getDescendants ::
  "TreeNode \<Rightarrow> nat option \<Rightarrow> TreeManager \<Rightarrow> TreeNode option list \<times> TreeManager" where
  "getDescendants n depth m = getTreeNodes (getItemDescendants (composer m) (item n) depth) m"

definition getParent :: "TreeNode \<Rightarrow> TreeManager \<Rightarrow> TreeNode option \<times> TreeManager" where
  "getParent n m =
     (case getItemParent (composer m) (item n) of
        Some parent \<Rightarrow> getTreeNode m parent
      | None \<Rightarrow> (None, m))"

definition isSelectable :: "TreeNode \<Rightarrow> TreeManager \<Rightarrow> bool" where
  "isSelectable n m = isItemCheckable m (item n)"

definition isParent :: "TreeNode \<Rightarrow> TreeManager \<Rightarrow> bool" where
  "isParent n m = isItemParent m (item n)"

definition isChild :: "TreeNode \<Rightarrow> TreeManager \<Rightarrow> bool" where
  "isChild n m = isItemChild m (item n)"

definition getDepth :: "TreeNode \<Rightarrow> TreeManager \<Rightarrow> nat" where
  "getDepth n m = getItemDepth (composer m) (item n)"

definition rerender :: "TreeNode \<Rightarrow> TreeManager \<Rightarrow> TreeManager" where
  "rerender n m = updateItem m (item n)"

text \<open>
  Every member of \<^verbatim>\<open>TreeNode\<close> that can change anything: the setters, the four
  structural getters (they create handles) and \<^verbatim>\<open>rerender\<close>. The other getters only
  read.
\<close>

datatype node_call =
    SetIcon "string option"
  | SetLabel string
  | SetValue string
  | SetReadonly bool
  | SetHighlighted bool
  | SetDisabled bool
  | SetExpanded bool
  | SetSelected bool
  | GetAncestors
  | GetChildren
  | GetDescendants "nat option"
  | GetParent
  | Rerender

fun perform :: "node_call \<Rightarrow> TreeNode \<Rightarrow> TreeManager \<Rightarrow> TreeManager" where
  "perform (SetIcon v) n m = set_icon n v m"
| "perform (SetLabel v) n m = set_label n v m"
| "perform (SetValue v) n m = set_value n v m"
| "perform (SetReadonly v) n m = set_readonly n v m"
| "perform (SetHighlighted v) n m = set_highlighted n v m"
| "perform (SetDisabled v) n m = set_disabled n v m"
| "perform (SetExpanded v) n m = set_expanded n v m"
| "perform (SetSelected v) n m = set_selected n v m"
| "perform GetAncestors n m = snd (getAncestors n m)"
| "perform GetChildren n m = snd (getChildren n m)"
| "perform (GetDescendants depth) n m = snd (getDescendants n depth m)"
| "perform GetParent n m = snd (getParent n m)"
| "perform Rerender n m = rerender n m"

subsection \<open>The scenario tree of the spec\<close>

text \<open>
  The tree \<^verbatim>\<open>A{children: B, C}\<close> of the spec's scenarios (8), with A, B, C the items 0, 1,
  2, B disabled, everything unchecked and collapsed, in relationship mode.
\<close>

definition scenario_composer :: Composer where
  "scenario_composer =
     \<lparr>forest = [Node 0 [Node 1 [], Node 2 []]],
      props = (\<lambda>i. if i = 1 then [''disabled'' \<mapsto> JBool True] else Map.empty)\<rparr>"

definition scenario_manager :: TreeManager where
  "scenario_manager =
     \<lparr>composer = scenario_composer, relationship = True,
      checkedStates = (\<lambda>_. UNCHECKED), expandedStates = (\<lambda>_. False),
      treeNodes = Map.empty, nextHandle = 0, selectionClock = 0, dirty = {}\<rparr>"

subsection \<open>A new manager and the nested test data\<close>



subsection \<open>Runs of calls on one manager\<close>

text \<open>
  The life of a manager: any sequence of calls, made on the manager directly or through
  one of its handles.
\<close>

datatype action = Manager manager_call | Handle TreeNode node_call

fun act :: "action \<Rightarrow> TreeManager \<Rightarrow> TreeManager" where
  "act (Manager c) m = call c m"
| "act (Handle n c) m = perform c n m"

definition acts :: "action list \<Rightarrow> TreeManager \<Rightarrow> TreeManager" where
  "acts as m = fold act as m"


chapter \<open>Properties\<close>

section \<open>The email field\<close>

text \<open>
  Claim C8. \<^verbatim>\<open>shouldValidate()\<close> is true exactly when \<^verbatim>\<open>maxLength\<close> is not null, or
  \<^verbatim>\<open>minLength\<close> is not null, or \<^verbatim>\<open>pattern\<close> is not the empty string; the pattern
  defaults to null, which differs from the empty string, so a freshly constructed field
  with no constraint configured validates.
\<close>

theorem shouldValidate_iff:
  "(shouldValidate f = (maxLength f \<noteq> None \<or> minLength f \<noteq> None \<or> pattern f \<noteq> Some ''''))
   \<and> pattern EmailField_new = None
   \<and> maxLength EmailField_new = None
   \<and> minLength EmailField_new = None
   \<and> shouldValidate EmailField_new"
  by (simp add: shouldValidate_def EmailField_new_def)

theorem shouldValidate_iff_witness:
  "shouldValidate EmailField_new
   \<and> \<not> shouldValidate (EmailField_new\<lparr>pattern := Some ''''\<rparr>)
   \<and> shouldValidate (EmailField_new\<lparr>pattern := Some '''', minLength := Some 3\<rparr>)"
  using shouldValidate_iff [of "EmailField_new"]
    shouldValidate_iff [of "EmailField_new\<lparr>pattern := Some ''''\<rparr>"]
    shouldValidate_iff [of "EmailField_new\<lparr>pattern := Some '''', minLength := Some 3\<rparr>"]
  by (simp add: EmailField_new_def)


section \<open>The icon loader's prefix\<close>

lemma setCdnPrefix_calls_state:
  "cdnPrefix (fold setCdnPrefix ps l) =
     (case cdnPrefix l of
        Pending \<Rightarrow> (case find (\<lambda>p. p \<noteq> []) ps of None \<Rightarrow> Pending | Some p \<Rightarrow> Resolved p)
      | d \<Rightarrow> d)
   \<and> isPrefixSet_field (fold setCdnPrefix ps l) = (isPrefixSet_field l \<or> (\<exists>p\<in>set ps. p \<noteq> []))"
proof (induction ps arbitrary: l)
  case Nil
  show ?case by (simp split: Deferred.splits)
next
  case (Cons p ps)
  have step: "fold setCdnPrefix (p # ps) l = fold setCdnPrefix ps (setCdnPrefix p l)"
    by simp
  show ?case
    unfolding step
    by (simp add: Cons.IH [of "setCdnPrefix p l"])
       (auto simp: setCdnPrefix_def set_isPrefixSet_def resolve_def split: Deferred.splits)
qed

text \<open>
  Claim C10. On any loader reached by \<^verbatim>\<open>setCdnPrefix\<close> calls from a new one:
  \<^verbatim>\<open>setCdnPrefix(prefix)\<close> with a non-empty prefix leaves the promise of
  \<^verbatim>\<open>getCdnPrefix()\<close> resolved (with this prefix when it was pending, and then
  \<^verbatim>\<open>getSrc\<close> of a non-empty name is fulfilled) and \<^verbatim>\<open>isPrefixSet\<close> true; with the
  empty string it changes nothing. While only empty prefixes have been given,
  \<^verbatim>\<open>isPrefixSet\<close> is false, the prefix promise is pending and \<^verbatim>\<open>getSrc\<close> of a
  non-empty icon name is still waiting. The prefix promise is never rejected.
\<close>

theorem setCdnPrefix_spec:
  fixes ps :: "string list" and prefix iconName :: string
  defines "l \<equiv> setCdnPrefix_calls ps IconLoader_new"
  shows "(prefix \<noteq> [] \<longrightarrow>
            isPrefixSet (setCdnPrefix prefix l)
          \<and> isResolved (getCdnPrefix (setCdnPrefix prefix l))
          \<and> (isPending (getCdnPrefix l) \<longrightarrow>
               getCdnPrefix (setCdnPrefix prefix l) = Resolved prefix
             \<and> (iconName \<noteq> [] \<longrightarrow>
                  getSrc (setCdnPrefix prefix l) iconName = Done (prefix @ iconName @ ''.svg''))))
       \<and> setCdnPrefix [] l = l
       \<and> ((\<forall>p\<in>set ps. p = []) \<longrightarrow>
            \<not> isPrefixSet l \<and> getCdnPrefix l = Pending
          \<and> (iconName \<noteq> [] \<longrightarrow> getSrc l iconName = Waiting))
       \<and> (\<forall>e. getCdnPrefix l \<noteq> Rejected e)"
proof -
  have st: "cdnPrefix l = (case find (\<lambda>p. p \<noteq> []) ps of None \<Rightarrow> Pending | Some p \<Rightarrow> Resolved p)"
    and fl: "isPrefixSet_field l = (\<exists>p\<in>set ps. p \<noteq> [])"
    using setCdnPrefix_calls_state [of ps IconLoader_new]
    by (simp_all add: l_def setCdnPrefix_calls_def IconLoader_new_def)
  have none: "(\<forall>p\<in>set ps. p = []) \<Longrightarrow> find (\<lambda>p. p \<noteq> []) ps = None"
    by (simp add: find_None_iff)
  have a: "prefix \<noteq> [] \<Longrightarrow> isPrefixSet (setCdnPrefix prefix l)"
    by (simp add: setCdnPrefix_def set_isPrefixSet_def isPrefixSet_def)
  have b: "prefix \<noteq> [] \<Longrightarrow> isResolved (getCdnPrefix (setCdnPrefix prefix l))"
    by (simp add: setCdnPrefix_def set_isPrefixSet_def getCdnPrefix_def isResolved_def
        resolve_def st split: option.splits)
  have c: "isPending (getCdnPrefix l) \<Longrightarrow> prefix \<noteq> [] \<Longrightarrow>
      getCdnPrefix (setCdnPrefix prefix l) = Resolved prefix"
    by (simp add: setCdnPrefix_def set_isPrefixSet_def getCdnPrefix_def isPending_def resolve_def)
  have d: "setCdnPrefix [] l = l"
    by (simp add: setCdnPrefix_def)
  have e: "(\<forall>p\<in>set ps. p = []) \<Longrightarrow> \<not> isPrefixSet l \<and> getCdnPrefix l = Pending"
    using none by (simp add: isPrefixSet_def fl getCdnPrefix_def st)
  have f: "\<forall>e. getCdnPrefix l \<noteq> Rejected e"
    by (simp add: getCdnPrefix_def st split: option.splits)
  show ?thesis
    using a b c d e f by (simp add: getSrc_def)
qed

theorem setCdnPrefix_spec_witness:
  "isPrefixSet (setCdnPrefix ''cdn/'' (setCdnPrefix_calls ['''', ''''] IconLoader_new))
   \<and> getCdnPrefix (setCdnPrefix ''cdn/'' (setCdnPrefix_calls ['''', ''''] IconLoader_new)) = Resolved ''cdn/''
   \<and> getSrc (setCdnPrefix ''cdn/'' (setCdnPrefix_calls ['''', ''''] IconLoader_new)) ''home'' = Done ''cdn/home.svg''
   \<and> \<not> isPrefixSet (setCdnPrefix_calls ['''', ''''] IconLoader_new)
   \<and> getCdnPrefix (setCdnPrefix_calls ['''', ''''] IconLoader_new) = Pending
   \<and> getSrc (setCdnPrefix_calls ['''', ''''] IconLoader_new) ''home'' = Waiting"
  using setCdnPrefix_spec [of "''cdn/''" "['''', '''']" "''home''"]
  by (simp add: isPending_def)



section \<open>The response cache of the CDN loader\<close>

lemma load_empty:
  "load [] w = (length (promises w), w\<lparr>promises := promises w @ [AsyncResult None]\<rparr>)"
  by (simp add: load_def async_return_def)

lemma load_cached:
  "src \<noteq> [] \<Longrightarrow> responseCache (loader w) src = Some p \<Longrightarrow>
   load src w = (length (promises w), w\<lparr>promises := promises w @ [AsyncResult (Some p)]\<rparr>)"
  by (simp add: load_def async_return_def)

lemma load_fresh:
  "src \<noteq> [] \<Longrightarrow> responseCache (loader w) src = None \<Longrightarrow>
   load src w =
     (Suc (length (promises w)),
      w\<lparr>loader := (loader w)\<lparr>responseCache := (responseCache (loader w))(src \<mapsto> length (promises w))\<rparr>,
        promises := promises w @ [ContentPending src, AsyncResult (Some (length (promises w)))],
        fetches := fetches w @ [src]\<rparr>)"
  by (simp add: load_def async_return_def loadContent_def)

lemma cache_inv_new: "cache_inv runtime_new"
  by (simp add: cache_inv_def runtime_new_def)

lemma cache_inv_load: "cache_inv w \<Longrightarrow> cache_inv (snd (load src w))"
proof (cases "src = []")
  case True
  assume "cache_inv w"
  then show ?thesis
    unfolding True load_empty cache_inv_def
    by (auto simp: nth_append split: if_splits)
next
  case False
  assume inv: "cache_inv w"
  show ?thesis
  proof (cases "responseCache (loader w) src")
    case None
    show ?thesis
      unfolding load_fresh [OF False None]
      using inv None unfolding cache_inv_def
      by (auto simp: nth_append nth_Cons split: if_splits nat.splits)
  next
    case (Some p)
    show ?thesis
      unfolding load_cached [OF False Some]
      using inv unfolding cache_inv_def
      by (auto simp: nth_append split: if_splits)
  qed
qed

lemma cache_inv_fulfilled: "cache_inv w \<Longrightarrow> cache_inv (fetch_fulfilled p r w)"
  unfolding cache_inv_def fetch_fulfilled_def
  by (auto simp: nth_list_update split: promise.splits if_splits)

lemma pending_unique:
  assumes "cache_inv w"
    and "p < length (promises w)" and "promises w ! p = ContentPending href"
    and "q < length (promises w)" and "promises w ! q = ContentPending href"
  shows "p = q"
proof -
  have "responseCache (loader w) href = Some p" and "responseCache (loader w) href = Some q"
    using assms unfolding cache_inv_def by blast+
  then show ?thesis by simp
qed

lemma cache_inv_thrown:
  assumes inv: "cache_inv w"
  shows "cache_inv (fetch_thrown p e w)"
proof (cases "p < length (promises w)")
  case False
  then show ?thesis using inv by (simp add: fetch_thrown_def)
next
  case lt: True
  show ?thesis
  proof (cases "promises w ! p")
    case (ContentPending href)
    have eq: "fetch_thrown p e w =
        w\<lparr>loader := (loader w)\<lparr>responseCache := (responseCache (loader w))(href := None)\<rparr>,
          promises := (promises w)[p := ContentDone \<lparr>status = 0, statusText = errorMessage e\<rparr>]\<rparr>"
      using lt ContentPending by (simp add: fetch_thrown_def)
    show ?thesis
      unfolding eq cache_inv_def
    proof (intro allI impI, elim conjE)
      fix q h
      assume q: "q < length (promises (w\<lparr>loader := (loader w)\<lparr>responseCache := (responseCache (loader w))(href := None)\<rparr>,
          promises := (promises w)[p := ContentDone \<lparr>status = 0, statusText = errorMessage e\<rparr>]\<rparr>))"
        and pq: "promises (w\<lparr>loader := (loader w)\<lparr>responseCache := (responseCache (loader w))(href := None)\<rparr>,
          promises := (promises w)[p := ContentDone \<lparr>status = 0, statusText = errorMessage e\<rparr>]\<rparr>) ! q = ContentPending h"
      from q have q': "q < length (promises w)" by simp
      from pq q' have ne: "q \<noteq> p" by (auto simp: nth_list_update split: if_splits)
      with pq have old: "promises w ! q = ContentPending h" by simp
      have "h \<noteq> href"
        using pending_unique [OF inv lt ContentPending q'] old ne by auto
      moreover have "responseCache (loader w) h = Some q"
        using inv q' old unfolding cache_inv_def by blast
      ultimately show "responseCache (loader (w\<lparr>loader := (loader w)\<lparr>responseCache := (responseCache (loader w))(href := None)\<rparr>,
          promises := (promises w)[p := ContentDone \<lparr>status = 0, statusText = errorMessage e\<rparr>]\<rparr>)) h = Some q"
        by simp
    qed
  next
    case (ContentDone r)
    then show ?thesis using inv lt by (simp add: fetch_thrown_def)
  next
    case (AsyncResult v)
    then show ?thesis using inv lt by (simp add: fetch_thrown_def)
  qed
qed

lemma cache_inv_step: "cache_inv w \<Longrightarrow> cache_inv (step ev w)"
  by (cases ev) (simp_all add: cache_inv_load cache_inv_fulfilled cache_inv_thrown)

lemma cache_inv_run: "cache_inv w \<Longrightarrow> cache_inv (run es w)"
  unfolding run_def
  by (induction es arbitrary: w) (simp_all add: cache_inv_step)

lemma cached_step:
  assumes "cache_inv w" and "responseCache (loader w) src = Some p" and "\<not> is_throw_of p ev"
  shows "responseCache (loader (step ev w)) src = Some p"
proof (cases ev)
  case (Load s)
  show ?thesis
  proof (cases "s = []")
    case True
    then show ?thesis using assms(2) Load by (simp add: load_empty)
  next
    case False
    then show ?thesis
      using assms(2) Load
      by (cases "responseCache (loader w) s") (auto simp: load_fresh load_cached)
  qed
next
  case (FetchFulfilled q r)
  then show ?thesis
    using assms(2) by (simp add: fetch_fulfilled_def split: promise.splits)
next
  case (FetchThrown q e)
  with assms(3) have "q \<noteq> p" by simp
  then show ?thesis
    using assms(1,2) FetchThrown unfolding cache_inv_def
    by (auto simp: fetch_thrown_def split: promise.splits)
qed

lemma cached_run:
  "cache_inv w \<Longrightarrow> responseCache (loader w) src = Some p \<Longrightarrow>
   \<forall>ev\<in>set es. \<not> is_throw_of p ev \<Longrightarrow>
   responseCache (loader (run es w)) src = Some p"
  unfolding run_def
  by (induction es arbitrary: w) (simp_all add: cache_inv_step cached_step)

lemma keeps_entries:
  "\<not> responseCache (loader w) src = None \<Longrightarrow> \<forall>q e. ev \<noteq> FetchThrown q e \<Longrightarrow>
   \<not> responseCache (loader (step ev w)) src = None"
proof (cases ev)
  case (Load s)
  assume a: "\<not> responseCache (loader w) src = None"
  show ?thesis
  proof (cases "s = []")
    case True
    then show ?thesis using a Load by (simp add: load_empty)
  next
    case False
    then show ?thesis
      using a Load
      by (cases "responseCache (loader w) s") (auto simp: load_fresh load_cached)
  qed
next
  case (FetchFulfilled q r)
  assume "\<not> responseCache (loader w) src = None"
  then show ?thesis
    using FetchFulfilled by (simp add: fetch_fulfilled_def split: promise.splits)
next
  case (FetchThrown q e)
  assume "\<forall>q e. ev \<noteq> FetchThrown q e"
  with FetchThrown show ?thesis by simp
qed


text \<open>
  Claim C9, with the promise that \<^verbatim>\<open>async load\<close> itself returns made explicit. On
  every loader state reached by a run of events from a new loader: \<^verbatim>\<open>load('')\<close>
  returns a promise resolved with \<^verbatim>\<open>undefined\<close> and changes neither the cache nor the
  fetches made. For a non-empty \<^verbatim>\<open>src\<close> with a cached promise \<open>p\<close>, \<^verbatim>\<open>load(src)\<close>
  returns a promise resolved with \<open>p\<close>, makes no fetch and leaves the cache as it is,
  and the entry stays \<open>p\<close> through every run of events in which the fetch of \<open>p\<close>
  does not throw. With no entry, \<^verbatim>\<open>load(src)\<close> makes one fetch of \<^verbatim>\<open>src\<close> and caches
  the new pending promise. A pending \<^verbatim>\<open>loadContent(src)\<close> is the cached promise of
  \<^verbatim>\<open>src\<close>; it stays cached when its fetch is fulfilled and is evicted when its fetch
  throws. No event other than a throwing fetch removes an entry.
\<close>

theorem load_cache_spec:
  fixes es es' :: "event list" and src :: string and p :: promise_ref and e :: thrown
    and ev :: event and r :: Response
  defines "w \<equiv> run es runtime_new"
  shows "(loader (snd (load [] w)) = loader w
          \<and> fetches (snd (load [] w)) = fetches w
          \<and> promises (snd (load [] w)) ! fst (load [] w) = AsyncResult None)
       \<and> (src \<noteq> [] \<and> responseCache (loader w) src = Some p \<longrightarrow>
            loader (snd (load src w)) = loader w
          \<and> fetches (snd (load src w)) = fetches w
          \<and> promises (snd (load src w)) ! fst (load src w) = AsyncResult (Some p)
          \<and> ((\<forall>ev\<in>set es'. \<not> is_throw_of p ev) \<longrightarrow>
               responseCache (loader (run es' w)) src = Some p))
       \<and> (src \<noteq> [] \<and> responseCache (loader w) src = None \<longrightarrow>
            fetches (snd (load src w)) = fetches w @ [src]
          \<and> responseCache (loader (snd (load src w))) src = Some (length (promises w))
          \<and> promises (snd (load src w)) ! length (promises w) = ContentPending src
          \<and> promises (snd (load src w)) ! fst (load src w) = AsyncResult (Some (length (promises w))))
       \<and> (p < length (promises w) \<and> promises w ! p = ContentPending src \<longrightarrow>
            responseCache (loader w) src = Some p
          \<and> responseCache (loader (fetch_fulfilled p r w)) src = Some p
          \<and> responseCache (loader (fetch_thrown p e w)) src = None)
       \<and> (responseCache (loader w) src \<noteq> None \<and> (\<forall>q e. ev \<noteq> FetchThrown q e) \<longrightarrow>
            responseCache (loader (step ev w)) src \<noteq> None)"
proof -
  have inv: "cache_inv w"
    unfolding w_def by (rule cache_inv_run [OF cache_inv_new])
  have a: "loader (snd (load [] w)) = loader w
      \<and> fetches (snd (load [] w)) = fetches w
      \<and> promises (snd (load [] w)) ! fst (load [] w) = AsyncResult None"
    by (simp add: load_empty)
  have b: "loader (snd (load src w)) = loader w
      \<and> fetches (snd (load src w)) = fetches w
      \<and> promises (snd (load src w)) ! fst (load src w) = AsyncResult (Some p)"
    if "src \<noteq> []" and "responseCache (loader w) src = Some p"
    using that by (simp add: load_cached)
  have c: "responseCache (loader (run es' w)) src = Some p"
    if "responseCache (loader w) src = Some p" and "\<forall>ev\<in>set es'. \<not> is_throw_of p ev"
    using cached_run [OF inv that] .
  have d: "fetches (snd (load src w)) = fetches w @ [src]
      \<and> responseCache (loader (snd (load src w))) src = Some (length (promises w))
      \<and> promises (snd (load src w)) ! length (promises w) = ContentPending src
      \<and> promises (snd (load src w)) ! fst (load src w) = AsyncResult (Some (length (promises w)))"
    if "src \<noteq> []" and "responseCache (loader w) src = None"
    using that by (simp add: load_fresh nth_append)
  have f: "responseCache (loader w) src = Some p
      \<and> responseCache (loader (fetch_fulfilled p r w)) src = Some p
      \<and> responseCache (loader (fetch_thrown p e w)) src = None"
    if "p < length (promises w)" and "promises w ! p = ContentPending src"
  proof -
    have "responseCache (loader w) src = Some p"
      using inv that unfolding cache_inv_def by blast
    then show ?thesis
      using that by (simp add: fetch_fulfilled_def fetch_thrown_def)
  qed
  have g: "responseCache (loader (step ev w)) src \<noteq> None"
    if "responseCache (loader w) src \<noteq> None" and "\<forall>q e. ev \<noteq> FetchThrown q e"
    using keeps_entries [of w src ev] that by blast
  show ?thesis
    using a b c d f g by simp
qed

theorem load_cache_spec_witness:
  "responseCache (loader (run [Load ''a.svg''] runtime_new)) ''a.svg'' = Some 0
   \<and> promises (run [Load ''a.svg''] runtime_new) ! 0 = ContentPending ''a.svg''
   \<and> fetches (snd (load ''a.svg'' (run [Load ''a.svg''] runtime_new))) = [''a.svg'']
   \<and> promises (snd (load ''a.svg'' (run [Load ''a.svg''] runtime_new)))
        ! fst (load ''a.svg'' (run [Load ''a.svg''] runtime_new)) = AsyncResult (Some 0)
   \<and> responseCache (loader (run [Load ''b.svg'', FetchFulfilled 0 \<lparr>status = 200, statusText = ''OK''\<rparr>]
        (run [Load ''a.svg''] runtime_new))) ''a.svg'' = Some 0
   \<and> responseCache (loader (fetch_thrown 0 (ThrownError ''offline'') (run [Load ''a.svg''] runtime_new))) ''a.svg'' = None
   \<and> responseCache (loader (run [Load ''a.svg''] runtime_new)) ''b.svg'' = None
   \<and> fetches (snd (load ''b.svg'' (run [Load ''a.svg''] runtime_new))) = [''a.svg'', ''b.svg'']
   \<and> responseCache (loader (step (Load ''b.svg'') (run [Load ''a.svg''] runtime_new))) ''a.svg'' \<noteq> None"
proof -
  have w: "run [Load ''a.svg''] runtime_new =
      \<lparr>loader = \<lparr>responseCache = [''a.svg'' \<mapsto> 0], cdnPrefix = Pending\<rparr>,
       promises = [ContentPending ''a.svg'', AsyncResult (Some 0)],
       fetches = [''a.svg'']\<rparr>"
    by (simp add: run_def load_def loadContent_def async_return_def runtime_new_def CDNLoader_new_def)
  have h1: "responseCache (loader (run [Load ''a.svg''] runtime_new)) ''a.svg'' = Some 0"
    and h2: "promises (run [Load ''a.svg''] runtime_new) ! 0 = ContentPending ''a.svg''"
    and h3: "(0::nat) < length (promises (run [Load ''a.svg''] runtime_new))"
    and h4: "responseCache (loader (run [Load ''a.svg''] runtime_new)) ''b.svg'' = None"
    and h7: "fetches (run [Load ''a.svg''] runtime_new) = [''a.svg'']"
    by (simp_all add: w)
  have h5: "\<forall>ev\<in>set [Load ''b.svg'', FetchFulfilled 0 \<lparr>status = 200, statusText = ''OK''\<rparr>].
      \<not> is_throw_of 0 ev"
    by simp
  have h6: "\<forall>q e. Load ''b.svg'' \<noteq> FetchThrown q e"
    by simp
  show ?thesis
    using load_cache_spec [where src = "''a.svg''" and es = "[Load ''a.svg'']" and p = 0
        and es' = "[Load ''b.svg'', FetchFulfilled 0 \<lparr>status = 200, statusText = ''OK''\<rparr>]"
        and r = "\<lparr>status = 200, statusText = ''OK''\<rparr>" and e = "ThrownError ''offline''"
        and ev = "Load ''b.svg''"]
      load_cache_spec [where src = "''b.svg''" and es = "[Load ''a.svg'']" and p = 0
        and es' = "[]" and r = "\<lparr>status = 200, statusText = ''OK''\<rparr>"
        and e = "ThrownError ''offline''" and ev = "Load ''b.svg''"]
      h1 h2 h3 h4 h5 h6 h7
    by simp
qed

text \<open>
  Two calls of \<^verbatim>\<open>load\<close> with the same source, on a new loader: the promise cached is
  the one at reference 0, a single fetch is made, and the two calls return two different
  promise objects (references 1 and 2), neither of which is the cached one.
\<close>

theorem load_returns_new_promise_counterexample:
  "responseCache (loader (snd (load ''a.svg'' runtime_new))) ''a.svg'' = Some 0
   \<and> fst (load ''a.svg'' runtime_new) = 1
   \<and> fst (load ''a.svg'' (snd (load ''a.svg'' runtime_new))) = 2
   \<and> fst (load ''a.svg'' (snd (load ''a.svg'' runtime_new))) \<noteq> fst (load ''a.svg'' runtime_new)
   \<and> fetches (snd (load ''a.svg'' (snd (load ''a.svg'' runtime_new)))) = [''a.svg'']"
  by (simp add: load_def loadContent_def async_return_def runtime_new_def CDNLoader_new_def)



section \<open>Node handles and the manager\<close>

text \<open>The definitions that evaluate the manager on a concrete tree.\<close>

lemmas scenario_simps =
  scenario_manager_def scenario_composer_def checkItem_def uncheckItem_def setItemChecked_def
  isItemInTree_def propagate_def recompute_def aggregate_def children_in_def ancestors_in_def
  descendants_in_def clearStamps_def setItemPropertyValue_def getItemPropertyValue_def
  getItemDescendants_def getItemAncestors_def getItemChildren_def getItemCheckedState_def
  Let_def

subsection \<open>The selected accessor\<close>

text \<open>
  Claim C5. The handle's \<^verbatim>\<open>selected\<close> getter is true exactly when the manager's
  \<^verbatim>\<open>getItemCheckedState\<close> of the item is CHECKED, so it is false for an INDETERMINATE
  and for an UNCHECKED item; assigning \<^verbatim>\<open>true\<close> is \<^verbatim>\<open>checkItem\<close> of the item and
  assigning \<^verbatim>\<open>false\<close> is \<^verbatim>\<open>uncheckItem\<close>.
\<close>

theorem selected_accessor:
  "get_selected n m = (getItemCheckedState m (item n) = CHECKED)
   \<and> (getItemCheckedState m (item n) = INDETERMINATE \<longrightarrow> \<not> get_selected n m)
   \<and> (getItemCheckedState m (item n) = UNCHECKED \<longrightarrow> \<not> get_selected n m)
   \<and> set_selected n True m = checkItem m (item n)
   \<and> set_selected n False m = uncheckItem m (item n)"
  by (simp add: get_selected_def set_selected_def)

theorem selected_accessor_witness:
  "getItemCheckedState (checkItem scenario_manager 1) 0 = INDETERMINATE
   \<and> \<not> get_selected \<lparr>handle = 0, item = 0\<rparr> (checkItem scenario_manager 1)
   \<and> getItemCheckedState scenario_manager 0 = UNCHECKED
   \<and> \<not> get_selected \<lparr>handle = 0, item = 0\<rparr> scenario_manager
   \<and> get_selected \<lparr>handle = 1, item = 1\<rparr> (set_selected \<lparr>handle = 1, item = 1\<rparr> True scenario_manager)"
proof -
  have a: "getItemCheckedState (checkItem scenario_manager 1) 0 = INDETERMINATE"
    by (simp add: scenario_simps)
  have b: "getItemCheckedState scenario_manager 0 = UNCHECKED"
    by (simp add: scenario_simps)
  have c: "getItemCheckedState (checkItem scenario_manager 1) 1 = CHECKED"
    by (simp add: scenario_simps)
  show ?thesis
    using a b c
      selected_accessor [of "\<lparr>handle = 0, item = 0\<rparr>" "checkItem scenario_manager 1"]
      selected_accessor [of "\<lparr>handle = 0, item = 0\<rparr>" scenario_manager]
      selected_accessor [of "\<lparr>handle = 1, item = 1\<rparr>" scenario_manager]
      selected_accessor [of "\<lparr>handle = 1, item = 1\<rparr>" "checkItem scenario_manager 1"]
    by simp
qed

subsection \<open>The boolean getters\<close>

text \<open>
  Claim C6. The \<^verbatim>\<open>readonly\<close>, \<^verbatim>\<open>disabled\<close>, \<^verbatim>\<open>highlighted\<close> and \<^verbatim>\<open>hidden\<close>
  getters return the boolean coercion of the composer's read of that property, so each is
  false when the field is absent from the raw item or holds \<^verbatim>\<open>undefined\<close>.
\<close>

theorem boolean_getters:
  "get_readonly n m = truthy (getItemPropertyValue (composer m) (item n) ''readonly'')
   \<and> get_disabled n m = truthy (getItemPropertyValue (composer m) (item n) ''disabled'')
   \<and> get_highlighted n m = truthy (getItemPropertyValue (composer m) (item n) ''highlighted'')
   \<and> get_hidden n m = truthy (getItemPropertyValue (composer m) (item n) ''hidden'')
   \<and> (props (composer m) (item n) ''readonly'' \<in> {None, Some JUndefined} \<longrightarrow> \<not> get_readonly n m)
   \<and> (props (composer m) (item n) ''disabled'' \<in> {None, Some JUndefined} \<longrightarrow> \<not> get_disabled n m)
   \<and> (props (composer m) (item n) ''highlighted'' \<in> {None, Some JUndefined} \<longrightarrow> \<not> get_highlighted n m)
   \<and> (props (composer m) (item n) ''hidden'' \<in> {None, Some JUndefined} \<longrightarrow> \<not> get_hidden n m)"
  by (auto simp: get_readonly_def get_disabled_def get_highlighted_def get_hidden_def
      getPropertyValue_def getItemPropertyValue_def)

theorem boolean_getters_witness:
  "get_disabled \<lparr>handle = 0, item = 1\<rparr> scenario_manager
   \<and> \<not> get_readonly \<lparr>handle = 0, item = 1\<rparr> scenario_manager
   \<and> \<not> get_highlighted \<lparr>handle = 0, item = 1\<rparr> scenario_manager
   \<and> \<not> get_hidden \<lparr>handle = 0, item = 1\<rparr> scenario_manager
   \<and> \<not> get_hidden \<lparr>handle = 0, item = 1\<rparr>
        (scenario_manager\<lparr>composer := setItemPropertyValue scenario_composer 1 ''hidden'' JUndefined\<rparr>)
   \<and> get_hidden \<lparr>handle = 0, item = 1\<rparr>
        (scenario_manager\<lparr>composer := setItemPropertyValue scenario_composer 1 ''hidden'' (JStr ''yes'')\<rparr>)"
  using boolean_getters [of "\<lparr>handle = 0, item = 1\<rparr>" scenario_manager]
    boolean_getters [of "\<lparr>handle = 0, item = 1\<rparr>"
      "scenario_manager\<lparr>composer := setItemPropertyValue scenario_composer 1 ''hidden'' JUndefined\<rparr>"]
    boolean_getters [of "\<lparr>handle = 0, item = 1\<rparr>"
      "scenario_manager\<lparr>composer := setItemPropertyValue scenario_composer 1 ''hidden'' (JStr ''yes'')\<rparr>"]
  by (simp add: scenario_manager_def scenario_composer_def setItemPropertyValue_def
      getItemPropertyValue_def)

subsection \<open>Expanding and collapsing\<close>

text \<open>
  Claim C4, for an item that is collapsed to begin with: \<^verbatim>\<open>expandItem(x)\<close> then
  \<^verbatim>\<open>collapseItem(x)\<close> returns \<^verbatim>\<open>isItemExpanded(x)\<close> to the value it had before, on
  the manager and through the handle's \<^verbatim>\<open>expanded\<close> accessor. Whatever the starting
  state, an item of the tree is not expanded after the two calls.
\<close>

theorem expand_collapse:
  "(\<not> isItemExpanded m x \<longrightarrow>
      isItemExpanded (collapseItem (expandItem m x) x) x = isItemExpanded m x)
   \<and> (isItemInTree (composer m) x \<longrightarrow> \<not> isItemExpanded (collapseItem (expandItem m x) x) x)
   \<and> (\<not> get_expanded n m \<longrightarrow>
        get_expanded n (set_expanded n False (set_expanded n True m)) = get_expanded n m)"
  by (simp add: isItemExpanded_def expandItem_def collapseItem_def setItemExpanded_def
      get_expanded_def set_expanded_def)

theorem expand_collapse_witness:
  "\<not> isItemExpanded scenario_manager 0
   \<and> isItemExpanded (expandItem scenario_manager 0) 0
   \<and> \<not> isItemExpanded (collapseItem (expandItem scenario_manager 0) 0) 0
   \<and> isItemInTree (composer scenario_manager) 0
   \<and> \<not> get_expanded \<lparr>handle = 0, item = 0\<rparr>
        (set_expanded \<lparr>handle = 0, item = 0\<rparr> False (set_expanded \<lparr>handle = 0, item = 0\<rparr> True scenario_manager))"
proof -
  have a: "\<not> isItemExpanded scenario_manager 0"
    and b: "isItemExpanded (expandItem scenario_manager 0) 0"
    and c: "isItemInTree (composer scenario_manager) 0"
    and d: "\<not> get_expanded \<lparr>handle = 0, item = 0\<rparr> scenario_manager"
    by (simp_all add: isItemExpanded_def expandItem_def setItemExpanded_def isItemInTree_def
        get_expanded_def scenario_manager_def scenario_composer_def)
  show ?thesis
    using a b c d expand_collapse [of scenario_manager 0 "\<lparr>handle = 0, item = 0\<rparr>"]
    by simp
qed

text \<open>
  An item that is expanded to begin with: after \<^verbatim>\<open>expandItem\<close> then \<^verbatim>\<open>collapseItem\<close>
  it is collapsed, which is not the value it had before.
\<close>

theorem expand_collapse_counterexample:
  "isItemExpanded (expandItem scenario_manager 0) 0
   \<and> \<not> isItemExpanded (collapseItem (expandItem (expandItem scenario_manager 0) 0) 0) 0"
  by (simp add: isItemExpanded_def expandItem_def collapseItem_def setItemExpanded_def
      isItemInTree_def scenario_manager_def scenario_composer_def)


subsection \<open>What the calls leave alone\<close>

lemma forest_setItemPropertyValue: "forest (setItemPropertyValue c i k v) = forest c"
  by (simp add: setItemPropertyValue_def)

lemma props_setItemPropertyValue:
  "props (setItemPropertyValue c i k v) y key =
     (if y = i \<and> key = k then Some v else props c y key)"
  by (simp add: setItemPropertyValue_def)

lemma fold_clear_forest:
  "forest (fold (\<lambda>y c'. if P y then setItemPropertyValue c' y k v else c') xs c) = forest c"
  by (induction xs arbitrary: c) (simp_all add: forest_setItemPropertyValue)

lemma fold_clear_props:
  "key \<noteq> k \<Longrightarrow>
   props (fold (\<lambda>y c'. if P y then setItemPropertyValue c' y k v else c') xs c) z key = props c z key"
  by (induction xs arbitrary: c) (simp_all add: props_setItemPropertyValue)

lemma forest_clearStamps: "forest (clearStamps old new c) = forest c"
  unfolding clearStamps_def by (rule fold_clear_forest)

lemma props_clearStamps:
  "key \<noteq> ''selectedAt'' \<Longrightarrow> props (clearStamps old new c) z key = props c z key"
  unfolding clearStamps_def by (rule fold_clear_props)

lemma forest_setItemChecked: "forest (composer (setItemChecked v m x)) = forest (composer m)"
  by (simp add: setItemChecked_def Let_def forest_clearStamps forest_setItemPropertyValue)

lemma props_setItemChecked:
  "key \<noteq> ''selectedAt'' \<Longrightarrow>
   props (composer (setItemChecked v m x)) z key = props (composer m) z key"
  by (simp add: setItemChecked_def Let_def props_clearStamps props_setItemPropertyValue)

lemma treeNodes_setItemChecked: "treeNodes (setItemChecked v m x) = treeNodes m"
  by (simp add: setItemChecked_def Let_def)

lemma composer_setItemExpanded: "composer (setItemExpanded v m x) = composer m"
  by (simp add: setItemExpanded_def)

lemma treeNodes_setItemExpanded: "treeNodes (setItemExpanded v m x) = treeNodes m"
  by (simp add: setItemExpanded_def)

lemma composer_getTreeNode: "composer (snd (getTreeNode m x)) = composer m"
  by (simp add: getTreeNode_def Let_def split: option.splits)

lemma treeNodes_getTreeNode:
  "treeNodes m y = Some n \<Longrightarrow> treeNodes (snd (getTreeNode m x)) y = Some n"
  by (auto simp: getTreeNode_def Let_def split: option.splits)

lemma composer_getTreeNodes: "composer (snd (getTreeNodes xs m)) = composer m"
proof (induction xs arbitrary: m)
  case Nil
  show ?case by simp
next
  case (Cons x xs)
  show ?case
    using Cons.IH [of "snd (getTreeNode m x)"]
    by (simp add: split_beta composer_getTreeNode)
qed

lemma treeNodes_getTreeNodes:
  "treeNodes m y = Some n \<Longrightarrow> treeNodes (snd (getTreeNodes xs m)) y = Some n"
proof (induction xs arbitrary: m)
  case Nil
  then show ?case by simp
next
  case (Cons x xs)
  show ?case
    using Cons.IH [OF treeNodes_getTreeNode [OF Cons.prems, of x]]
    by (simp add: split_beta)
qed

lemma composer_getParent: "composer (snd (getParent n m)) = composer m"
  by (simp add: getParent_def composer_getTreeNode split: option.splits)

lemma treeNodes_getParent:
  "treeNodes m y = Some h \<Longrightarrow> treeNodes (snd (getParent n m)) y = Some h"
  by (simp add: getParent_def treeNodes_getTreeNode split: option.splits)

lemma forest_call: "forest (composer (call c m)) = forest (composer m)"
  by (cases c)
     (simp_all add: checkItem_def uncheckItem_def expandItem_def collapseItem_def updateItem_def
        forest_setItemChecked composer_setItemExpanded composer_getTreeNode)

lemma treeNodes_call: "treeNodes m y = Some h \<Longrightarrow> treeNodes (call c m) y = Some h"
  by (cases c)
     (simp_all add: checkItem_def uncheckItem_def expandItem_def collapseItem_def updateItem_def
        treeNodes_setItemChecked treeNodes_setItemExpanded treeNodes_getTreeNode)

lemma props_call:
  "key \<noteq> ''selectedAt'' \<Longrightarrow> props (composer (call c m)) z key = props (composer m) z key"
  by (cases c)
     (simp_all add: checkItem_def uncheckItem_def expandItem_def collapseItem_def updateItem_def
        props_setItemChecked composer_setItemExpanded composer_getTreeNode)

lemma forest_perform: "forest (composer (perform c n m)) = forest (composer m)"
  by (cases c)
     (simp_all add: set_icon_def set_label_def set_value_def set_readonly_def
        set_highlighted_def set_disabled_def setProperty_def forest_setItemPropertyValue
        set_expanded_def set_selected_def checkItem_def uncheckItem_def expandItem_def
        collapseItem_def forest_setItemChecked composer_setItemExpanded
        getAncestors_def getChildren_def getDescendants_def composer_getTreeNodes
        composer_getParent rerender_def updateItem_def)

lemma treeNodes_perform: "treeNodes m y = Some h \<Longrightarrow> treeNodes (perform c n m) y = Some h"
  by (cases c)
     (simp_all add: set_icon_def set_label_def set_value_def set_readonly_def
        set_highlighted_def set_disabled_def setProperty_def
        set_expanded_def set_selected_def checkItem_def uncheckItem_def expandItem_def
        collapseItem_def treeNodes_setItemChecked treeNodes_setItemExpanded
        getAncestors_def getChildren_def getDescendants_def treeNodes_getTreeNodes
        treeNodes_getParent rerender_def updateItem_def)

lemma forest_act: "forest (composer (act a m)) = forest (composer m)"
  by (cases a) (simp_all add: forest_call forest_perform)

lemma treeNodes_act: "treeNodes m y = Some h \<Longrightarrow> treeNodes (act a m) y = Some h"
  by (cases a) (simp_all add: treeNodes_call treeNodes_perform)

lemma forest_acts: "forest (composer (acts as m)) = forest (composer m)"
  unfolding acts_def by (induction as arbitrary: m) (simp_all add: forest_act)

lemma treeNodes_acts: "treeNodes m y = Some h \<Longrightarrow> treeNodes (acts as m) y = Some h"
  unfolding acts_def by (induction as arbitrary: m) (simp_all add: treeNodes_act)

subsection \<open>Handle identity\<close>

text \<open>
  Claim C3. \<^verbatim>\<open>getTreeNode\<close> called again with the same item, after any run of calls on
  the manager and its handles, returns what the first call returned. For an item of the
  tree that is a handle, which the first call leaves in the manager's map from item to
  handle and which stays there; when the item had no handle yet, the first call creates
  it.
\<close>

theorem getTreeNode_stable:
  "fst (getTreeNode (acts as (snd (getTreeNode m x))) x) = fst (getTreeNode m x)
   \<and> (isItemInTree (composer m) x \<longrightarrow>
        (\<exists>n. fst (getTreeNode m x) = Some n)
      \<and> treeNodes (snd (getTreeNode m x)) x = fst (getTreeNode m x)
      \<and> treeNodes (acts as (snd (getTreeNode m x))) x = fst (getTreeNode m x))
   \<and> (isItemInTree (composer m) x \<and> treeNodes m x = None \<longrightarrow>
        fst (getTreeNode m x) = Some \<lparr>handle = nextHandle m, item = x\<rparr>)"
proof (cases "isItemInTree (composer m) x")
  case False
  have "\<not> isItemInTree (composer (acts as (snd (getTreeNode m x)))) x"
    using False by (simp add: isItemInTree_def forest_acts composer_getTreeNode)
  then show ?thesis
    using False by (simp add: getTreeNode_def)
next
  case True
  obtain h where h: "fst (getTreeNode m x) = Some h"
    and c: "treeNodes (snd (getTreeNode m x)) x = Some h"
    using True by (cases "treeNodes m x") (simp_all add: getTreeNode_def Let_def)
  have later: "treeNodes (acts as (snd (getTreeNode m x))) x = Some h"
    by (rule treeNodes_acts [OF c])
  have known: "isItemInTree (composer (acts as (snd (getTreeNode m x)))) x"
    using True by (simp add: isItemInTree_def forest_acts composer_getTreeNode)
  have again: "fst (getTreeNode (acts as (snd (getTreeNode m x))) x) = Some h"
    using known later by (simp add: getTreeNode_def)
  have first: "treeNodes m x = None \<Longrightarrow>
      fst (getTreeNode m x) = Some \<lparr>handle = nextHandle m, item = x\<rparr>"
    using True by (simp add: getTreeNode_def Let_def)
  show ?thesis
    using True h c later again first by simp
qed

theorem getTreeNode_stable_witness:
  "fst (getTreeNode scenario_manager 1) = Some \<lparr>handle = 0, item = 1\<rparr>
   \<and> fst (getTreeNode (acts [Manager (GetTreeNode 2), Manager (CheckItem 1), Handle \<lparr>handle = 0, item = 1\<rparr> GetParent]
            (snd (getTreeNode scenario_manager 1))) 1) = Some \<lparr>handle = 0, item = 1\<rparr>
   \<and> fst (getTreeNode (snd (getTreeNode scenario_manager 1)) 2) = Some \<lparr>handle = 1, item = 2\<rparr>"
proof -
  have a: "isItemInTree (composer scenario_manager) 1"
    and b: "treeNodes scenario_manager 1 = None"
    and c: "nextHandle scenario_manager = 0"
    by (simp_all add: scenario_manager_def scenario_composer_def isItemInTree_def)
  have d: "fst (getTreeNode (snd (getTreeNode scenario_manager 1)) 2) = Some \<lparr>handle = 1, item = 2\<rparr>"
    by (simp add: scenario_manager_def scenario_composer_def isItemInTree_def getTreeNode_def Let_def)
  show ?thesis
    using a b c d
      getTreeNode_stable [of "[Manager (GetTreeNode 2), Manager (CheckItem 1), Handle \<lparr>handle = 0, item = 1\<rparr> GetParent]"
        scenario_manager 1]
    by simp
qed



subsection \<open>What a handle writes on the raw item\<close>

lemma props_perform_hidden:
  "props (composer (perform c n m)) y ''hidden'' = props (composer m) y ''hidden''"
  by (cases c)
     (simp_all add: set_icon_def set_label_def set_value_def set_readonly_def
        set_highlighted_def set_disabled_def setProperty_def props_setItemPropertyValue
        set_expanded_def set_selected_def checkItem_def uncheckItem_def expandItem_def
        collapseItem_def props_setItemChecked composer_setItemExpanded
        getAncestors_def getChildren_def getDescendants_def composer_getTreeNodes
        composer_getParent rerender_def updateItem_def)

lemma props_perform_selectedAt:
  assumes "\<forall>v. c \<noteq> SetSelected v"
  shows "props (composer (perform c n m)) y ''selectedAt'' = props (composer m) y ''selectedAt''"
proof (cases c)
  case (SetSelected v)
  with assms show ?thesis by blast
qed (simp_all add: set_icon_def set_label_def set_value_def set_readonly_def
        set_highlighted_def set_disabled_def setProperty_def props_setItemPropertyValue
        set_expanded_def expandItem_def collapseItem_def composer_setItemExpanded
        getAncestors_def getChildren_def getDescendants_def composer_getTreeNodes
        composer_getParent rerender_def updateItem_def)

lemma get_after_setProperty:
  "getPropertyValue n (setProperty n k v m) k = v"
  by (simp add: getPropertyValue_def setProperty_def getItemPropertyValue_def
      setItemPropertyValue_def)

text \<open>
  Claim C7, with the write that the \<^verbatim>\<open>selected\<close> setter makes set apart. The handle has
  no setter for \<^verbatim>\<open>hidden\<close> or \<^verbatim>\<open>selectedAt\<close>. No operation of a handle changes the
  \<^verbatim>\<open>hidden\<close> field of any raw item, and none but the \<^verbatim>\<open>selected\<close> setter changes a
  \<^verbatim>\<open>selectedAt\<close> field. \<^verbatim>\<open>icon\<close>, \<^verbatim>\<open>label\<close>, \<^verbatim>\<open>value\<close>, \<^verbatim>\<open>readonly\<close>,
  \<^verbatim>\<open>disabled\<close> and \<^verbatim>\<open>highlighted\<close> are writable through the handle: the getter
  returns what the setter wrote.
\<close>

theorem handle_writes:
  "props (composer (perform c n m)) y ''hidden'' = props (composer m) y ''hidden''
   \<and> ((\<forall>v. c \<noteq> SetSelected v) \<longrightarrow>
        props (composer (perform c n m)) y ''selectedAt'' = props (composer m) y ''selectedAt'')
   \<and> get_icon n (set_icon n i m) = (case i of None \<Rightarrow> JUndefined | Some s \<Rightarrow> JStr s)
   \<and> get_label n (set_label n s m) = JStr s
   \<and> get_value n (set_value n s m) = JStr s
   \<and> get_readonly n (set_readonly n b m) = b
   \<and> get_disabled n (set_disabled n b m) = b
   \<and> get_highlighted n (set_highlighted n b m) = b"
  using props_perform_hidden [of c n m y] props_perform_selectedAt [of c n m y]
  by (simp add: get_icon_def set_icon_def get_label_def set_label_def get_value_def
      set_value_def get_readonly_def set_readonly_def get_disabled_def set_disabled_def
      get_highlighted_def set_highlighted_def get_after_setProperty)

theorem handle_writes_witness:
  "props (composer (perform (SetSelected True) \<lparr>handle = 0, item = 1\<rparr> scenario_manager)) 1 ''hidden'' = None
   \<and> props (composer (perform (SetLabel ''B'') \<lparr>handle = 0, item = 1\<rparr> scenario_manager)) 1 ''selectedAt'' = None
   \<and> get_label \<lparr>handle = 0, item = 1\<rparr> (set_label \<lparr>handle = 0, item = 1\<rparr> ''B'' scenario_manager) = JStr ''B''
   \<and> \<not> get_disabled \<lparr>handle = 0, item = 1\<rparr> (set_disabled \<lparr>handle = 0, item = 1\<rparr> False scenario_manager)"
proof -
  have a: "props (composer scenario_manager) 1 ''hidden'' = None"
    and b: "props (composer scenario_manager) 1 ''selectedAt'' = None"
    by (simp_all add: scenario_manager_def scenario_composer_def)
  have c: "\<forall>v. SetLabel ''B'' \<noteq> SetSelected v"
    by simp
  show ?thesis
    using a b c
      handle_writes [of "SetSelected True" "\<lparr>handle = 0, item = 1\<rparr>" scenario_manager 1 None "''B''" False]
      handle_writes [of "SetLabel ''B''" "\<lparr>handle = 0, item = 1\<rparr>" scenario_manager 1 None "''B''" False]
    by simp
qed

text \<open>
  Assigning \<^verbatim>\<open>selected = true\<close> on the handle of an unchecked item: \<^verbatim>\<open>checkItem\<close>
  stamps the selection timestamp, so the \<^verbatim>\<open>selectedAt\<close> field of the raw item, unset
  before, holds the timestamp afterwards.
\<close>

theorem selected_writes_selectedAt_counterexample:
  "props (composer scenario_manager) 1 ''selectedAt'' = None
   \<and> props (composer (perform (SetSelected True) \<lparr>handle = 0, item = 1\<rparr> scenario_manager)) 1 ''selectedAt''
       = Some (JNum 0)
   \<and> get_selectedAt \<lparr>handle = 0, item = 1\<rparr> (set_selected \<lparr>handle = 0, item = 1\<rparr> True scenario_manager)
       \<noteq> get_selectedAt \<lparr>handle = 0, item = 1\<rparr> scenario_manager"
  by (simp add: set_selected_def get_selectedAt_def getPropertyValue_def scenario_simps)



section \<open>Selection in the tree\<close>

subsection \<open>Searching the logical tree\<close>

lemma find_tree_None_iff:
  "(find_tree x t = None) = (x \<notin> set (items_of t))"
  "(find_forest x ts = None) = (x \<notin> set (forest_items ts))"
  by (induction t and ts rule: items_of_forest_items.induct) (auto split: option.splits)



lemma ancestors_not_self:
  "ancestors_tree x t = Some p \<Longrightarrow> distinct (items_of t) \<Longrightarrow> x \<notin> set p"
  "ancestors_forest x ts = Some p \<Longrightarrow> distinct (forest_items ts) \<Longrightarrow> x \<notin> set p"
  by (induction t and ts arbitrary: p and p rule: items_of_forest_items.induct)
     (auto split: option.splits if_splits)



lemma find_forest_single: "find_forest x [t] = find_tree x t"
  by (simp split: option.splits)

lemma ancestors_forest_single: "ancestors_forest x [t] = ancestors_tree x t"
  by (simp split: option.splits)


subsection \<open>The rule depends on the states of the items of the tree only\<close>




subsection \<open>The two folds of the propagation\<close>

lemma force_apply:
  "fold (\<lambda>d s. s(d := v)) ds st y = (if y \<in> set ds then v else st y)"
  by (induction ds arbitrary: st) auto

lemma recompute_outside:
  "y \<notin> set p \<Longrightarrow> fold (recompute f) p st y = st y"
  by (induction p arbitrary: st) (auto simp: recompute_def)


subsection \<open>Propagation in a subtree\<close>






subsection \<open>Propagation keeps the rule\<close>



subsection \<open>Checking and unchecking keep the rule\<close>

lemma checkedStates_setItemChecked:
  "checkedStates (setItemChecked v m x) =
     (if isItemInTree (composer m) x then
        (if relationship m then propagate (forest (composer m)) x v (checkedStates m)
         else (checkedStates m)(x := v))
      else checkedStates m)"
  by (simp add: setItemChecked_def Let_def)



lemma propagate_self:
  assumes "distinct (forest_items f)"
  shows "propagate f x v st x = v"
proof -
  have "x \<notin> set (ancestors_in f x)"
    using ancestors_not_self(2) [OF _ assms, of x]
    by (cases "ancestors_forest x f") (simp_all add: ancestors_in_def)
  then show ?thesis
    by (simp add: propagate_def recompute_outside force_apply)
qed

lemma setItemChecked_state:
  assumes "wellformed (composer m)" and "isItemInTree (composer m) x"
  shows "checkedStates (setItemChecked v m x) x = v"
  using assms by (simp add: checkedStates_setItemChecked propagate_self wellformed_def)















subsection \<open>Reading the rule at an item\<close>







subsection \<open>The leaves below an item\<close>



lemma children_in_outside: "d \<notin> set (forest_items ts) \<Longrightarrow> children_in ts d = []"
  using find_tree_None_iff(2) [of d ts] by (simp add: children_in_def)





subsection \<open>The aggregation rule\<close>







subsection \<open>Checkability is advisory\<close>

text \<open>
  Claim C2. For an item of a well-formed tree that is disabled or readonly,
  \<^verbatim>\<open>isItemCheckable\<close> and the handle's \<^verbatim>\<open>isSelectable()\<close> are false, yet
  \<^verbatim>\<open>checkItem\<close> (also through the \<^verbatim>\<open>selected\<close> setter) leaves the item CHECKED, and
  still not checkable. For an item that is neither disabled nor readonly both are true.
\<close>

theorem checkable_is_advisory:
  assumes "wellformed (composer m)" and "isItemInTree (composer m) (item n)"
  shows "(get_disabled n m \<or> get_readonly n m \<longrightarrow>
            \<not> isItemCheckable m (item n) \<and> \<not> isSelectable n m
          \<and> getItemCheckedState (checkItem m (item n)) (item n) = CHECKED
          \<and> get_selected n (set_selected n True m)
          \<and> \<not> isItemCheckable (checkItem m (item n)) (item n))
       \<and> (\<not> get_disabled n m \<and> \<not> get_readonly n m \<longrightarrow>
            isItemCheckable m (item n) \<and> isSelectable n m)"
proof -
  have checked: "getItemCheckedState (checkItem m (item n)) (item n) = CHECKED"
    using setItemChecked_state [OF assms, of CHECKED]
    by (simp add: getItemCheckedState_def checkItem_def)
  have same: "isItemCheckable (checkItem m (item n)) (item n) = isItemCheckable m (item n)"
    by (simp add: isItemCheckable_def getItemPropertyValue_def checkItem_def props_setItemChecked)
  have adv: "isItemCheckable m (item n) = (\<not> (get_disabled n m \<or> get_readonly n m))"
    by (simp add: isItemCheckable_def get_disabled_def get_readonly_def getPropertyValue_def)
  show ?thesis
    using checked same adv
    by (simp add: isSelectable_def get_selected_def set_selected_def)
qed

theorem checkable_is_advisory_witness:
  "get_disabled \<lparr>handle = 0, item = 1\<rparr> scenario_manager
   \<and> \<not> isItemCheckable scenario_manager 1
   \<and> \<not> isSelectable \<lparr>handle = 0, item = 1\<rparr> scenario_manager
   \<and> getItemCheckedState scenario_manager 1 = UNCHECKED
   \<and> getItemCheckedState (checkItem scenario_manager 1) 1 = CHECKED
   \<and> \<not> get_disabled \<lparr>handle = 1, item = 2\<rparr> scenario_manager
   \<and> \<not> get_readonly \<lparr>handle = 1, item = 2\<rparr> scenario_manager
   \<and> isItemCheckable scenario_manager 2"
proof -
  have wf: "wellformed (composer scenario_manager)"
    by (simp add: wellformed_def scenario_manager_def scenario_composer_def)
  have i1: "isItemInTree (composer scenario_manager) (item \<lparr>handle = 0, item = 1\<rparr>)"
    and i2: "isItemInTree (composer scenario_manager) (item \<lparr>handle = 1, item = 2\<rparr>)"
    by (simp_all add: isItemInTree_def scenario_manager_def scenario_composer_def)
  have d1: "get_disabled \<lparr>handle = 0, item = 1\<rparr> scenario_manager"
    and d2: "\<not> get_disabled \<lparr>handle = 1, item = 2\<rparr> scenario_manager"
    and r2: "\<not> get_readonly \<lparr>handle = 1, item = 2\<rparr> scenario_manager"
    and u: "getItemCheckedState scenario_manager 1 = UNCHECKED"
    by (simp_all add: get_disabled_def get_readonly_def getPropertyValue_def
        getItemPropertyValue_def getItemCheckedState_def scenario_manager_def scenario_composer_def)
  show ?thesis
    using d1 d2 r2 u checkable_is_advisory [OF wf i1] checkable_is_advisory [OF wf i2]
    by simp
qed

end
